theory Spec2Isabelle
  imports Main
begin

section \<open>BGM engine: content store and navigation controller\<close>

text \<open>
  The repository holds two revisions of the engine (\<^verbatim>\<open>main.js\<close>): the file
  \<^verbatim>\<open>src/unnamed/part_000\<close> (three literal routes, \<^verbatim>\<open>load\<close> wrapped in
  \<^verbatim>\<open>try/catch\<close>, no in-flight guard in \<^verbatim>\<open>renderRoute\<close>) and the file
  \<^verbatim>\<open>src/unnamed/part_002\<close> (two literal routes, \<^verbatim>\<open>load\<close> rejects on
  failure, \<^verbatim>\<open>renderRoute\<close> returns early while a transition is in flight).
  Functions that differ take the revision as their first argument; functions that are
  the same text in both files are defined once.
\<close>

datatype revision = Part000 | Part002

subsection \<open>escapeHTML\<close>

text \<open>
  \<^verbatim>\<open>String.prototype.replaceAll(pattern, replacement)\<close> with a one-character pattern and a
  replacement free of \<^verbatim>\<open>$\<close>: every occurrence of the character is replaced, left to
  right, and the replacement is not scanned again.
\<close>

definition replaceAll :: "char \<Rightarrow> string \<Rightarrow> string \<Rightarrow> string" where
  "replaceAll p r s = concat (map (\<lambda>c. if c = p then r else [c]) s)"

text \<open>
  \<^verbatim>\<open>escapeHTML(value)\<close>. The argument is \<open>None\<close> for \<^verbatim>\<open>null\<close> and
  \<^verbatim>\<open>undefined\<close> (then \<^verbatim>\<open>value ?? ""\<close> is the empty string) and \<open>Some s\<close> for a
  value whose conversion \<^verbatim>\<open>String(value)\<close> is \<open>s\<close>. The five replacements run in
  the source's order, the ampersand first. \<open>CHR 0x22\<close> is the double quote and
  \<open>CHR 0x27\<close> the single quote. A character that is none of the five is copied as it
  is, whatever its code.
\<close>

definition escapeHTML :: "string option \<Rightarrow> string" where
  "escapeHTML v =
     replaceAll (CHR 0x27) ''&#39;''
       (replaceAll (CHR 0x22) ''&quot;''
         (replaceAll (CHR ''>'') ''&gt;''
           (replaceAll (CHR ''<'') ''&lt;''
             (replaceAll (CHR ''&'') ''&amp;''
               (case v of None \<Rightarrow> [] | Some s \<Rightarrow> s)))))"

text \<open>The five substitution entities, the five characters they stand for, and what the
  chain of replacements does to one character.\<close>

definition entities :: "string list" where
  "entities = [''&amp;'', ''&lt;'', ''&gt;'', ''&quot;'', ''&#39;'']"

definition special :: "char set" where
  "special = {CHR ''&'', CHR ''<'', CHR ''>'', CHR 0x22, CHR 0x27}"

definition escapeChar :: "char \<Rightarrow> string" where
  "escapeChar c =
     (if c = CHR ''&'' then ''&amp;''
      else if c = CHR ''<'' then ''&lt;''
      else if c = CHR ''>'' then ''&gt;''
      else if c = CHR 0x22 then ''&quot;''
      else if c = CHR 0x27 then ''&#39;''
      else [c])"

text \<open>\<open>entity_at r i\<close>: one of the five entities starts at position \<open>i\<close> of \<open>r\<close>.\<close>

definition entity_at :: "string \<Rightarrow> nat \<Rightarrow> bool" where
  "entity_at r i = (\<exists>e \<in> set entities. take (length e) (drop i r) = e)"

subsection \<open>ObservableContentStore\<close>

text \<open>
  The class is the same text in both files except for \<^verbatim>\<open>load\<close>. A payload (the
  value \<^verbatim>\<open>response.json()\<close> resolves with) has the type \<open>'d\<close>, and \<open>data\<close> is
  \<open>None\<close> for \<^verbatim>\<open>null\<close>. The test \<^verbatim>\<open>if (this.data)\<close> is JavaScript's truthiness: it
  fails for \<^verbatim>\<open>null\<close> and for the payloads \<^verbatim>\<open>0\<close>, \<^verbatim>\<open>false\<close> and \<^verbatim>\<open>""\<close>, and holds
  for every other payload, among them every object and array; \<open>subscribe\<close> takes it
  as the function \<open>truthy\<close> on payloads. An observer is
  a callback, compared by identity: it is modelled by a number, and calling it is
  recorded as the pair of the observer and its argument. Observers are taken to return
  normally and not to call back into the store.

  \<open>observers\<close> is the \<^verbatim>\<open>Set\<close> of the source as the list of its elements in insertion
  order, which is the order \<^verbatim>\<open>for ... of\<close> visits them in.
\<close>

type_synonym observer = nat

record 'd store =
  contentUrl :: string
  intervalMs :: nat
  observers :: "observer list"
  data :: "'d option"
  signature :: string
  timerId :: "nat option"

text \<open>The constructor.\<close>

definition ObservableContentStore :: "string \<Rightarrow> nat \<Rightarrow> 'd store" where
  "ObservableContentStore url interval =
     \<lparr>contentUrl = url, intervalMs = interval, observers = [], data = None,
      signature = [], timerId = None\<rparr>"

text \<open>\<^verbatim>\<open>Set.prototype.add\<close> (an element already present keeps its place) and
  \<^verbatim>\<open>Set.prototype.delete\<close>.\<close>

definition set_add :: "observer \<Rightarrow> observer list \<Rightarrow> observer list" where
  "set_add ob obs = (if ob \<in> set obs then obs else obs @ [ob])"

definition set_delete :: "observer \<Rightarrow> observer list \<Rightarrow> observer list" where
  "set_delete ob obs = removeAll ob obs"

text \<open>\<^verbatim>\<open>if (this.data)\<close>: the stored value is not \<^verbatim>\<open>null\<close> and is a truthy payload.\<close>

definition truthy_data :: "('d \<Rightarrow> bool) \<Rightarrow> 'd option \<Rightarrow> bool" where
  "truthy_data truthy x = (case x of None \<Rightarrow> False | Some d \<Rightarrow> truthy d)"

text \<open>\<^verbatim>\<open>subscribe(observer)\<close> returns the store and the calls it made; the closure it
  returns in the source is \<open>unsubscribe ob\<close>.\<close>

definition subscribe ::
  "('d \<Rightarrow> bool) \<Rightarrow> observer \<Rightarrow> 'd store \<Rightarrow> 'd store \<times> (observer \<times> 'd option) list" where
  "subscribe truthy ob st =
     (let st' = st\<lparr>observers := set_add ob (observers st)\<rparr>
      in (st', if truthy_data truthy (data st') then [(ob, data st')] else []))"

definition unsubscribe :: "observer \<Rightarrow> 'd store \<Rightarrow> 'd store" where
  "unsubscribe ob st = st\<lparr>observers := set_delete ob (observers st)\<rparr>"

text \<open>\<^verbatim>\<open>notify()\<close>: the calls made, in order.\<close>

definition notify :: "'d store \<Rightarrow> (observer \<times> 'd option) list" where
  "notify st = map (\<lambda>ob. (ob, data st)) (observers st)"

text \<open>
  The cache-busting number. \<^verbatim>\<open>Date.now()\<close> and \<^verbatim>\<open>intervalMs\<close> are natural numbers;
  for these \<^verbatim>\<open>Math.floor(a / b)\<close> is \<open>a div b\<close> when \<open>b\<close> is positive, and a division by
  zero gives \<^verbatim>\<open>Infinity\<close>, or \<^verbatim>\<open>NaN\<close> for \<^verbatim>\<open>0 / 0\<close>.
\<close>

datatype jsnum = Num nat | Infinity | NaN

definition cacheBust :: "bool \<Rightarrow> nat \<Rightarrow> nat \<Rightarrow> jsnum" where
  "cacheBust force now interval =
     (if force then Num now
      else if interval = 0 then (if now = 0 then NaN else Infinity)
      else Num (now div interval))"

text \<open>The number as the template literal writes it: decimal digits (timestamps are far
  below the \<open>10\<^sup>2\<^sup>1\<close> from which JavaScript switches to exponent notation).\<close>

definition digit :: "nat \<Rightarrow> char" where
  "digit n = (''0123456789'' ! n)"

fun string_of_nat :: "nat \<Rightarrow> string" where
  "string_of_nat n = (if n < 10 then [digit n] else string_of_nat (n div 10) @ [digit (n mod 10)])"

declare string_of_nat.simps [simp del]

text \<open>Reading the decimal notation back.\<close>

definition digit_value :: "char \<Rightarrow> nat" where
  "digit_value c = length (takeWhile (\<lambda>d. d \<noteq> c) ''0123456789'')"

definition nat_of_string :: "string \<Rightarrow> nat" where
  "nat_of_string s = foldl (\<lambda>n c. 10 * n + digit_value c) 0 s"

definition string_of_jsnum :: "jsnum \<Rightarrow> string" where
  "string_of_jsnum x =
     (case x of Num n \<Rightarrow> string_of_nat n | Infinity \<Rightarrow> ''Infinity'' | NaN \<Rightarrow> ''NaN'')"

text \<open>The first three lines of \<^verbatim>\<open>load\<close>: the URL the request is sent to.\<close>

definition requestUrl :: "'d store \<Rightarrow> bool \<Rightarrow> nat \<Rightarrow> string" where
  "requestUrl st force now =
     (let separator = (if CHR ''?'' \<in> set (contentUrl st) then ''&'' else ''?'')
      in contentUrl st @ separator @ ''v='' @ string_of_jsnum (cacheBust force now (intervalMs st)))"

text \<open>
  What the network returns. \<^verbatim>\<open>fetch\<close> either rejects or resolves with a response;
  \<^verbatim>\<open>response.ok\<close> holds for the statuses 200 to 299; \<^verbatim>\<open>response.json()\<close> rejects on a
  malformed body and resolves with the parsed payload otherwise.
\<close>

datatype 'd body = Malformed | Parsed 'd

record 'd response =
  status :: nat
  body :: "'d body"

definition ok :: "'d response \<Rightarrow> bool" where
  "ok response = (200 \<le> status response \<and> status response \<le> 299)"

datatype 'd fetched = Rejected | Resolved "'d response"

text \<open>
  The exceptions of \<^verbatim>\<open>load\<close>: the \<^verbatim>\<open>Error\<close> thrown on a response that is not ok, which
  carries the status in its message; the \<^verbatim>\<open>SyntaxError\<close> of \<^verbatim>\<open>response.json()\<close>; the
  \<^verbatim>\<open>TypeError\<close> of a \<^verbatim>\<open>fetch\<close> that rejects.
\<close>

datatype error = FetchFailure nat | ParseFailure | NetworkFailure

text \<open>
  The lines from \<^verbatim>\<open>fetch\<close> to \<^verbatim>\<open>return this.data\<close>: the body of \<^verbatim>\<open>load\<close> in part_002
  and of its \<^verbatim>\<open>try\<close> block in part_000. \<open>fetch\<close> is the network (the answer to a URL)
  and \<open>stringify\<close> is \<^verbatim>\<open>JSON.stringify\<close>. \<open>st\<close> is the store as it is when the
  response has arrived: the fields read before the \<^verbatim>\<open>await\<close> (\<open>contentUrl\<close>,
  \<open>intervalMs\<close>) are never assigned after construction. The result is what is returned
  or thrown, the store, and the calls made to observers.
\<close>

definition load_body ::
  "(string \<Rightarrow> 'd fetched) \<Rightarrow> ('d \<Rightarrow> string) \<Rightarrow> bool \<Rightarrow> nat \<Rightarrow> 'd store \<Rightarrow>
   (error + 'd option) \<times> 'd store \<times> (observer \<times> 'd option) list" where
  "load_body fetch stringify force now st =
     (case fetch (requestUrl st force now) of
        Rejected \<Rightarrow> (Inl NetworkFailure, st, [])
      | Resolved response \<Rightarrow>
          if \<not> ok response then (Inl (FetchFailure (status response)), st, [])
          else (case body response of
                  Malformed \<Rightarrow> (Inl ParseFailure, st, [])
                | Parsed nextData \<Rightarrow>
                    let nextSignature = stringify nextData in
                    if nextSignature \<noteq> signature st
                    then (let st' = st\<lparr>signature := nextSignature, data := Some nextData\<rparr>
                          in (Inr (data st'), st', notify st'))
                    else (Inr (data st), st, [])))"

text \<open>
  \<^verbatim>\<open>load({ force })\<close>. \<open>result\<close> is what the promise settles with (\<open>Inl\<close>: it
  rejects), \<open>after\<close> the store, \<open>invoked\<close> the calls made to observers and \<open>warned\<close>
  what was passed to \<^verbatim>\<open>console.warn\<close>. Part_002 lets the exception escape; part_000
  catches it, warns and returns \<^verbatim>\<open>this.data\<close>.
\<close>

record 'd outcome =
  result :: "error + 'd option"
  after :: "'d store"
  invoked :: "(observer \<times> 'd option) list"
  warned :: "error list"

definition load ::
  "revision \<Rightarrow> (string \<Rightarrow> 'd fetched) \<Rightarrow> ('d \<Rightarrow> string) \<Rightarrow> bool \<Rightarrow> nat \<Rightarrow> 'd store \<Rightarrow> 'd outcome" where
  "load rv fetch stringify force now st =
     (case load_body fetch stringify force now st of
        (Inr d, st', calls) \<Rightarrow> \<lparr>result = Inr d, after = st', invoked = calls, warned = []\<rparr>
      | (Inl e, st', calls) \<Rightarrow>
          (case rv of
             Part002 \<Rightarrow> \<lparr>result = Inl e, after = st', invoked = calls, warned = []\<rparr>
           | Part000 \<Rightarrow> \<lparr>result = Inr (data st'), after = st', invoked = calls, warned = [e]\<rparr>))"

text \<open>Stores to run the functions on: their payloads are numbers, whose
  \<^verbatim>\<open>JSON.stringify\<close> is the decimal notation and of which only \<^verbatim>\<open>0\<close> is not truthy.
  Two observers are subscribed; \<open>store5\<close> has loaded the payload 5, \<open>store0\<close> the
  payload 0.\<close>

definition truthy_number :: "nat \<Rightarrow> bool" where
  "truthy_number n = (n \<noteq> 0)"

definition store5 :: "nat store" where
  "store5 = \<lparr>contentUrl = ''content.json'', intervalMs = 7000, observers = [1, 2],
             data = Some 5, signature = ''5'', timerId = None\<rparr>"

definition store0 :: "nat store" where
  "store0 = \<lparr>contentUrl = ''content.json'', intervalMs = 7000, observers = [1, 2],
             data = Some 0, signature = ''0'', timerId = None\<rparr>"

definition respond :: "nat \<Rightarrow> nat body \<Rightarrow> string \<Rightarrow> nat fetched" where
  "respond code b url = Resolved \<lparr>status = code, body = b\<rparr>"

subsection \<open>BGM_Core: state, host and events\<close>

text \<open>
  A snapshot follows the repository's content contract: \<^verbatim>\<open>articles\<close> is an array of
  objects with a string \<^verbatim>\<open>id\<close>, and \<^verbatim>\<open>meta.defaultRoute\<close> is a string when present
  (\<open>None\<close>: \<^verbatim>\<open>content?.meta?.defaultRoute\<close> is undefined). Of an article the model
  keeps the id and the title; the other fields only feed the markup templates.
\<close>

record article =
  article_id :: string
  title :: string

record content =
  defaultRoute :: "string option"
  articles :: "article list"

text \<open>
  What \<^verbatim>\<open>routeRenderer\<close> puts into the mount: the home view (\<^verbatim>\<open>renderHome(route)\<close>,
  which reads \<^verbatim>\<open>this.state.content\<close>) or the view of an article.
\<close>

datatype surface = HomeView string "content option" | ArticleView article

text \<open>
  The first four fields are \<^verbatim>\<open>this.state\<close>. \<open>viewTransitions\<close> is the test
  \<^verbatim>\<open>this.options.enableViewTransitions && "startViewTransition" in document\<close>, fixed for a
  page. \<open>hash\<close> is \<^verbatim>\<open>window.location.hash\<close>. The remaining fields are the work the
  host holds and what the controller did:
  \<^item> \<open>frames\<close>: the \<^verbatim>\<open>requestAnimationFrame\<close> callbacks queued by \<^verbatim>\<open>commitDOM\<close>, oldest
    first, each given by the \<^verbatim>\<open>route\<close> its closure holds;
  \<^item> \<open>finishing\<close>: the view transitions started whose \<^verbatim>\<open>finished\<close> promise has not
    settled;
  \<^item> \<open>routeChanged\<close>: the arguments of the calls of \<^verbatim>\<open>options.onRouteChange\<close>, one per
    commit of a route;
  \<^item> \<open>painted\<close>: what the runs of \<^verbatim>\<open>routeRenderer\<close> put into the mount, oldest first.
\<close>

record core =
  content :: "content option"
  articlesById :: "string \<rightharpoonup> article"
  currentRoute :: string
  isNavigating :: bool
  viewTransitions :: bool
  hash :: string
  frames :: "string list"
  finishing :: nat
  routeChanged :: "string list"
  painted :: "surface list"

text \<open>The constructor, on a page whose address bar shows the fragment \<open>h\<close>.\<close>

definition BGM_Core :: "bool \<Rightarrow> string \<Rightarrow> core" where
  "BGM_Core animated h =
     \<lparr>content = None, articlesById = Map.empty, currentRoute = ''home'', isNavigating = False,
      viewTransitions = animated, hash = h, frames = [], finishing = 0,
      routeChanged = [], painted = []\<rparr>"

text \<open>The literal routes: \<^verbatim>\<open>["home", "latest", "watch"]\<close> in part_000, \<^verbatim>\<open>"home"\<close> and
  \<^verbatim>\<open>"latest"\<close> in part_002.\<close>

definition literalRoutes :: "revision \<Rightarrow> string list" where
  "literalRoutes rv = (case rv of Part000 \<Rightarrow> [''home'', ''latest'', ''watch'']
                               | Part002 \<Rightarrow> [''home'', ''latest''])"

text \<open>\<^verbatim>\<open>new Map(articles.map((article) => [article.id, article]))\<close>: of two articles with
  one id the later one is kept.\<close>

definition index :: "content \<Rightarrow> (string \<rightharpoonup> article)" where
  "index c = map_of (rev (map (\<lambda>article. (article_id article, article)) (articles c)))"

text \<open>\<^verbatim>\<open>String.prototype.trim\<close> on ASCII text.\<close>

definition is_space :: "char \<Rightarrow> bool" where
  "is_space c = (c \<in> {CHR '' '', CHR 0x09, CHR 0x0A, CHR 0x0B, CHR 0x0C, CHR 0x0D})"

definition trim :: "string \<Rightarrow> string" where
  "trim s = rev (dropWhile is_space (rev (dropWhile is_space s)))"

text \<open>\<^verbatim>\<open>parseHashRoute()\<close>: the fragment without one leading \<^verbatim>\<open>#\<close>, trimmed; when that is
  empty, the default route of the snapshot, or \<^verbatim>\<open>"home"\<close>.\<close>

definition parseHashRoute :: "core \<Rightarrow> string" where
  "parseHashRoute w =
     (let v = trim (case hash w of [] \<Rightarrow> [] | c # cs \<Rightarrow> if c = CHR ''#'' then cs else c # cs)
      in if v \<noteq> [] then v
         else (case content w of
                 None \<Rightarrow> ''home''
               | Some c \<Rightarrow> (case defaultRoute c of
                              None \<Rightarrow> ''home''
                            | Some d \<Rightarrow> if d \<noteq> [] then d else ''home'')))"

text \<open>\<^verbatim>\<open>normalizeRoute(routeCandidate)\<close>.\<close>

definition normalizeRoute :: "revision \<Rightarrow> core \<Rightarrow> string \<Rightarrow> string" where
  "normalizeRoute rv w routeCandidate =
     (if routeCandidate \<in> set (literalRoutes rv) then routeCandidate
      else if articlesById w routeCandidate \<noteq> None then routeCandidate
      else ''home'')"

text \<open>
  The closure \<^verbatim>\<open>routeRenderer\<close> of \<^verbatim>\<open>renderRoute\<close>, run in the animation frame: it reads
  the state as it is then. \<^verbatim>\<open>renderArticle\<close> falls back to \<^verbatim>\<open>renderHome()\<close> when the
  article is not in the index.
\<close>

definition routeRenderer :: "revision \<Rightarrow> core \<Rightarrow> string \<Rightarrow> surface" where
  "routeRenderer rv w route =
     (if route \<in> set (literalRoutes rv) then HomeView route (content w)
      else (case articlesById w route of
              None \<Rightarrow> HomeView ''home'' (content w)
            | Some article \<Rightarrow> ArticleView article))"

text \<open>
  \<^verbatim>\<open>renderRoute(route)\<close> after its guard: the route is committed
  (\<^verbatim>\<open>currentRoute\<close> assigned, \<^verbatim>\<open>onRouteChange(route)\<close> called), the flag is raised and
  the DOM work is handed to the host. Without view transitions \<^verbatim>\<open>commitDOM()\<close> queues
  the animation-frame callback at once. With them \<^verbatim>\<open>startViewTransition\<close> calls
  \<^verbatim>\<open>commitDOM\<close> a little later; nothing reads the state in between, so the callback is
  queued here as well, and the transition is counted in \<open>finishing\<close>.
\<close>

definition commit :: "string \<Rightarrow> core \<Rightarrow> core" where
  "commit route w =
     w\<lparr>currentRoute := route,
       routeChanged := routeChanged w @ [route],
       isNavigating := True,
       frames := frames w @ [route],
       finishing := (if viewTransitions w then finishing w + 1 else finishing w)\<rparr>"

text \<open>\<^verbatim>\<open>renderRoute(route)\<close>: part_000 returns early only without content, part_002 also
  while a transition is in flight.\<close>

definition renderRoute :: "revision \<Rightarrow> string \<Rightarrow> core \<Rightarrow> core" where
  "renderRoute rv route w =
     (case rv of
        Part000 \<Rightarrow> if content w = None then w else commit route w
      | Part002 \<Rightarrow> if content w = None \<or> isNavigating w then w else commit route w)"

text \<open>\<^verbatim>\<open>navigate(route)\<close>. Route tokens are URL-safe, so the fragment assigned to
  \<^verbatim>\<open>location.hash\<close> reads back as it was written; only \<^verbatim>\<open>"#"\<close> leaves an empty
  fragment, which reads back as the empty string.\<close>

definition navigate :: "revision \<Rightarrow> string \<Rightarrow> core \<Rightarrow> core" where
  "navigate rv route w =
     (let normalizedRoute = normalizeRoute rv w route;
          targetHash = CHR ''#'' # normalizedRoute
      in if hash w \<noteq> targetHash
         then w\<lparr>hash := (if normalizedRoute = [] then [] else targetHash)\<rparr>
         else renderRoute rv normalizedRoute w)"

text \<open>\<^verbatim>\<open>handleRouteChange()\<close>.\<close>

definition handleRouteChange :: "revision \<Rightarrow> core \<Rightarrow> core" where
  "handleRouteChange rv w =
     (let requestedRoute = parseHashRoute w;
          normalizedRoute = normalizeRoute rv w requestedRoute
      in if normalizedRoute \<noteq> requestedRoute then navigate rv normalizedRoute w
         else renderRoute rv normalizedRoute w)"

text \<open>\<^verbatim>\<open>onContentUpdate(content)\<close>, the observer the controller subscribes to the store
  (\<^verbatim>\<open>renderNavigation()\<close> only writes the navigation bar).\<close>

definition onContentUpdate :: "revision \<Rightarrow> content \<Rightarrow> core \<Rightarrow> core" where
  "onContentUpdate rv c w =
     (let w' = w\<lparr>content := Some c, articlesById := index c\<rparr>
      in case rv of
           Part000 \<Rightarrow> if \<not> isNavigating w' then renderRoute rv (currentRoute w') w' else w'
         | Part002 \<Rightarrow> handleRouteChange rv w')"

text \<open>
  The host runs the oldest queued animation-frame callback,
  \<^verbatim>\<open>() => { routeRenderer(); resolve(); }\<close>. \<open>returns\<close> tells whether \<^verbatim>\<open>routeRenderer()\<close>
  returns normally. If it throws, \<^verbatim>\<open>resolve()\<close> is not reached: the promise of
  \<^verbatim>\<open>commitDOM\<close> stays pending and no handler runs (what the half-finished renderer
  left in the mount is not recorded). If it returns, the promise is fulfilled;
  without view transitions the \<^verbatim>\<open>finally\<close> handler on it runs before anything else
  and lowers the flag, with them the handler waits for \<^verbatim>\<open>finished\<close>.
\<close>

definition frame :: "revision \<Rightarrow> bool \<Rightarrow> core \<Rightarrow> core" where
  "frame rv returns w =
     (case frames w of
        [] \<Rightarrow> w
      | route # queued \<Rightarrow>
          if \<not> returns then w\<lparr>frames := queued\<rparr>
          else (let w' = w\<lparr>frames := queued, painted := painted w @ [routeRenderer rv w route]\<rparr>
                in if viewTransitions w then w' else w'\<lparr>isNavigating := False\<rparr>))"

text \<open>
  The \<^verbatim>\<open>finished\<close> promise of a started view transition settles, fulfilled or
  rejected: its \<^verbatim>\<open>finally\<close> handler lowers the flag. When the host settles it is left
  to the host.
\<close>

definition finished :: "bool \<Rightarrow> core \<Rightarrow> core" where
  "finished fulfilled w =
     (if finishing w = 0 then w
      else w\<lparr>finishing := finishing w - 1, isNavigating := False\<rparr>)"

text \<open>
  What can happen to the controller, one event at a time (the host is single-threaded):
  the store notifies it of a snapshot; \<^verbatim>\<open>handleRouteChange()\<close> runs (on a
  \<^verbatim>\<open>hashchange\<close> event and at the end of \<^verbatim>\<open>init\<close>); the fragment is changed from
  outside; \<^verbatim>\<open>navigate(route)\<close> is called (by the click handlers); an animation frame
  runs; a transition finishes.
\<close>

datatype event =
    ContentUpdate content
  | HashChange
  | SetHash string
  | Navigate string
  | Frame bool
  | Finished bool

definition step :: "revision \<Rightarrow> event \<Rightarrow> core \<Rightarrow> core" where
  "step rv ev w =
     (case ev of
        ContentUpdate c \<Rightarrow> onContentUpdate rv c w
      | HashChange \<Rightarrow> handleRouteChange rv w
      | SetHash h \<Rightarrow> w\<lparr>hash := h\<rparr>
      | Navigate route \<Rightarrow> navigate rv route w
      | Frame returns \<Rightarrow> frame rv returns w
      | Finished fulfilled \<Rightarrow> finished fulfilled w)"

fun run :: "revision \<Rightarrow> event list \<Rightarrow> core \<Rightarrow> core" where
  "run rv [] w = w"
| "run rv (ev # evs) w = run rv evs (step rv ev w)"

text \<open>A route is valid against the snapshot the index was built from: it is a literal
  route or the id of an article.\<close>

definition validRoute :: "revision \<Rightarrow> core \<Rightarrow> string \<Rightarrow> bool" where
  "validRoute rv w route = (route \<in> set (literalRoutes rv) \<or> articlesById w route \<noteq> None)"

text \<open>\<open>commits_valid rv w w'\<close>: from \<open>w\<close> to \<open>w'\<close> either nothing was committed, or one
  route was, and it is valid in \<open>w'\<close>.\<close>

definition commits_valid :: "revision \<Rightarrow> core \<Rightarrow> core \<Rightarrow> bool" where
  "commits_valid rv w w' =
     ((routeChanged w' = routeChanged w \<and> currentRoute w' = currentRoute w) \<or>
      (routeChanged w' = routeChanged w @ [currentRoute w'] \<and> validRoute rv w' (currentRoute w')))"

text \<open>\<open>stuck w\<close>: the flag is raised and the host holds nothing that would lower it.\<close>

definition stuck :: "core \<Rightarrow> bool" where
  "stuck w = (isNavigating w \<and> frames w = [] \<and> finishing w = 0)"

text \<open>
  Snapshots and a state to run the controller on: one article \<open>a1\<close>; the same article
  with a revised title; no article. \<open>core_a1\<close> is the controller on a page with view
  transitions after it loaded \<open>content1\<close> at the fragment \<^verbatim>\<open>#a1\<close> and showed the article.
\<close>

definition article_a1 :: article where
  "article_a1 = \<lparr>article_id = ''a1'', title = ''First''\<rparr>"

definition article_a1_revised :: article where
  "article_a1_revised = \<lparr>article_id = ''a1'', title = ''First, revised''\<rparr>"

definition content1 :: content where
  "content1 = \<lparr>defaultRoute = Some ''latest'', articles = [article_a1]\<rparr>"

definition content1_revised :: content where
  "content1_revised = \<lparr>defaultRoute = Some ''latest'', articles = [article_a1_revised]\<rparr>"

definition content2 :: content where
  "content2 = \<lparr>defaultRoute = Some ''latest'', articles = []\<rparr>"

definition core_a1 :: core where
  "core_a1 =
     \<lparr>content = Some content1, articlesById = index content1, currentRoute = ''a1'',
      isNavigating = False, viewTransitions = True, hash = ''#a1'', frames = [], finishing = 0,
      routeChanged = [''a1''], painted = [ArticleView article_a1]\<rparr>"

text \<open>
  The start of a page at the fragment \<^verbatim>\<open>#a1\<close>, as \<^verbatim>\<open>init\<close> runs it: the forced
  load delivers \<open>content1\<close> to the observer, then \<^verbatim>\<open>handleRouteChange()\<close> is called;
  after that the queued frames run and the transitions finish.
\<close>

definition boot :: "event list" where
  "boot = [ContentUpdate content1, HashChange, Frame True, Frame True, Finished True, Finished True]"

section \<open>Properties\<close>

subsection \<open>escapeHTML\<close>

lemma replaceAll_Nil: "replaceAll p r [] = []"
  by (simp add: replaceAll_def)

lemma replaceAll_append: "replaceAll p r (xs @ ys) = replaceAll p r xs @ replaceAll p r ys"
  by (simp add: replaceAll_def)

lemma replaceAll_concat:
  "replaceAll p r (concat (map f s)) = concat (map (\<lambda>c. replaceAll p r (f c)) s)"
  by (induction s) (simp_all add: replaceAll_Nil replaceAll_append)

lemma replaceAll_as_concat: "replaceAll p r s = concat (map (\<lambda>c. replaceAll p r [c]) s)"
  by (induction s) (simp_all add: replaceAll_def)

lemma escape_one:
  "replaceAll (CHR 0x27) ''&#39;''
       (replaceAll (CHR 0x22) ''&quot;''
         (replaceAll (CHR ''>'') ''&gt;''
           (replaceAll (CHR ''<'') ''&lt;''
             (replaceAll (CHR ''&'') ''&amp;'' [c])))) = escapeChar c"
  by (simp add: replaceAll_def escapeChar_def)

text \<open>The chain of five replacements is a character-by-character substitution: an
  ampersand introduced by a later replacement is never escaped again, because the
  ampersand is replaced first.\<close>

lemma escapeHTML_concat:
  "escapeHTML v = concat (map escapeChar (case v of None \<Rightarrow> [] | Some s \<Rightarrow> s))"
proof -
  let ?s = "case v of None \<Rightarrow> [] | Some s \<Rightarrow> s"
  have "escapeHTML v = concat (map (\<lambda>c. replaceAll (CHR 0x27) ''&#39;''
       (replaceAll (CHR 0x22) ''&quot;''
         (replaceAll (CHR ''>'') ''&gt;''
           (replaceAll (CHR ''<'') ''&lt;''
             (replaceAll (CHR ''&'') ''&amp;'' [c]))))) ?s)"
    unfolding escapeHTML_def
    by (subst replaceAll_as_concat [of "CHR ''&''"]) (simp only: replaceAll_concat)
  then show ?thesis by (simp only: escape_one)
qed

lemma escapeChar_no_markup:
  "x \<in> set (escapeChar c) \<Longrightarrow> x \<notin> {CHR ''<'', CHR ''>'', CHR 0x22, CHR 0x27}"
  by (auto simp: escapeChar_def split: if_splits)

lemma escapeChar_amp:
  assumes "i < length (escapeChar c)" and "escapeChar c ! i = CHR ''&''"
  shows "i = 0 \<and> escapeChar c \<in> set entities"
  using assms
  by (auto simp: escapeChar_def entities_def nth_Cons' split: if_splits)

lemma concat_escapeChar_amp:
  "i < length (concat (map escapeChar s)) \<Longrightarrow> concat (map escapeChar s) ! i = CHR ''&'' \<Longrightarrow>
   entity_at (concat (map escapeChar s)) i"
proof (induction s arbitrary: i)
  case Nil
  then show ?case by simp
next
  case (Cons c s)
  let ?a = "escapeChar c" and ?rest = "concat (map escapeChar s)"
  show ?case
  proof (cases "i < length ?a")
    case True
    with Cons.prems have "?a ! i = CHR ''&''" by (simp add: nth_append)
    with True have "i = 0" and "?a \<in> set entities"
      using escapeChar_amp by blast+
    then show ?thesis
      unfolding entity_at_def by (intro bexI [of _ "?a"]) simp_all
  next
    case False
    with Cons.prems have "i - length ?a < length ?rest" and "?rest ! (i - length ?a) = CHR ''&''"
      by (auto simp: nth_append)
    then have "entity_at ?rest (i - length ?a)" by (rule Cons.IH)
    with False show ?thesis by (auto simp: entity_at_def)
  qed
qed

lemma concat_escapeChar_id:
  "set s \<inter> special = {} \<Longrightarrow> concat (map escapeChar s) = s"
  by (induction s) (auto simp: escapeChar_def special_def)

text \<open>
  Claim C10. For every input value, the string \<open>escapeHTML\<close> returns contains none of
  the characters \<^verbatim>\<open><\<close>, \<^verbatim>\<open>>\<close>, double quote and single quote; every ampersand in it
  is the first character of one of the five entities; and an input with none of the five
  special characters is returned unchanged.
\<close>

theorem escapeHTML_output:
  "set (escapeHTML v) \<inter> {CHR ''<'', CHR ''>'', CHR 0x22, CHR 0x27} = {} \<and>
   (\<forall>i < length (escapeHTML v). escapeHTML v ! i = CHR ''&'' \<longrightarrow> entity_at (escapeHTML v) i) \<and>
   (set s \<inter> special = {} \<longrightarrow> escapeHTML (Some s) = s)"
proof (intro conjI allI impI)
  show "set (escapeHTML v) \<inter> {CHR ''<'', CHR ''>'', CHR 0x22, CHR 0x27} = {}"
    using escapeChar_no_markup by (auto simp: escapeHTML_concat)
next
  fix i
  assume "i < length (escapeHTML v)" and "escapeHTML v ! i = CHR ''&''"
  then show "entity_at (escapeHTML v) i"
    by (simp add: escapeHTML_concat concat_escapeChar_amp)
next
  assume "set s \<inter> special = {}"
  then show "escapeHTML (Some s) = s"
    by (simp add: escapeHTML_concat concat_escapeChar_id)
qed

theorem escapeHTML_output_witness:
  "set (escapeHTML (Some ''<&'')) \<inter> {CHR ''<'', CHR ''>'', CHR 0x22, CHR 0x27} = {} \<and>
   escapeHTML (Some ''<&'') = ''&lt;&amp;'' \<and>
   escapeHTML (Some ''<&'') ! 4 = CHR ''&'' \<and>
   entity_at (escapeHTML (Some ''<&'')) 4 \<and>
   set ''ab'' \<inter> special = {} \<and>
   escapeHTML (Some ''ab'') = ''ab''"
proof -
  have e: "escapeHTML (Some ''<&'') = ''&lt;&amp;''"
    by (simp add: escapeHTML_def replaceAll_def)
  have h: "set ''ab'' \<inter> special = {}"
    by (simp add: special_def)
  have amp: "escapeHTML (Some ''<&'') ! 4 = CHR ''&''" and len: "4 < length (escapeHTML (Some ''<&''))"
    by (simp_all add: e)
  from escapeHTML_output [of "Some ''<&''" "''ab''"] h amp len
  show ?thesis by (simp add: e)
qed

subsection \<open>ObservableContentStore\<close>

lemma set_add_distinct: "distinct obs \<Longrightarrow> distinct (set_add ob obs)"
  by (simp add: set_add_def)

lemma set_delete_distinct: "distinct obs \<Longrightarrow> distinct (set_delete ob obs)"
  by (simp add: set_delete_def distinct_removeAll)

text \<open>The observers of a store are pairwise different: this holds of a new store and is
  kept by every operation.\<close>

lemma new_store_distinct: "distinct (observers (ObservableContentStore url interval))"
  by (simp add: ObservableContentStore_def)

lemma subscribe_distinct:
  "distinct (observers st) \<Longrightarrow> distinct (observers (fst (subscribe truthy ob st)))"
  by (simp add: subscribe_def Let_def set_add_distinct)

lemma unsubscribe_distinct:
  "distinct (observers st) \<Longrightarrow> distinct (observers (unsubscribe ob st))"
  by (simp add: unsubscribe_def set_delete_distinct)

lemma load_observers:
  "observers (after (load rv fetch stringify force now st)) = observers st"
  by (auto simp: load_def load_body_def Let_def
           split: fetched.splits body.splits revision.splits)

lemma invoked_once:
  "distinct obs \<Longrightarrow> ob \<in> set obs \<Longrightarrow>
   length (filter (\<lambda>c. fst c = ob) (map (\<lambda>ob. (ob, x)) obs)) = 1"
  by (induction obs) (auto simp: filter_empty_conv)

text \<open>
  Claim C1. When the request succeeds and the body parses: if the serialization of the
  new payload equals the stored signature, \<open>load\<close> calls no observer, leaves the store
  (its snapshot and signature) as it is and returns the stored snapshot; if it differs,
  \<open>load\<close> stores the new signature and snapshot, calls the observers in subscription
  order, each exactly once, with the new snapshot, and returns it. Both revisions.
\<close>

theorem load_fingerprint:
  assumes "fetch (requestUrl st force now) = Resolved response" and "ok response"
    and "body response = Parsed nextData" and "distinct (observers st)"
  shows "(stringify nextData = signature st \<longrightarrow>
            load rv fetch stringify force now st =
              \<lparr>result = Inr (data st), after = st, invoked = [], warned = []\<rparr>) \<and>
         (stringify nextData \<noteq> signature st \<longrightarrow>
            load rv fetch stringify force now st =
              \<lparr>result = Inr (Some nextData),
               after = st\<lparr>signature := stringify nextData, data := Some nextData\<rparr>,
               invoked = map (\<lambda>ob. (ob, Some nextData)) (observers st), warned = []\<rparr> \<and>
            (\<forall>ob \<in> set (observers st).
               length (filter (\<lambda>c. fst c = ob) (invoked (load rv fetch stringify force now st))) = 1))"
proof (intro conjI impI)
  assume "stringify nextData = signature st"
  with assms show "load rv fetch stringify force now st =
      \<lparr>result = Inr (data st), after = st, invoked = [], warned = []\<rparr>"
    by (simp add: load_def load_body_def)
next
  assume differs: "stringify nextData \<noteq> signature st"
  with assms show swap: "load rv fetch stringify force now st =
      \<lparr>result = Inr (Some nextData),
       after = st\<lparr>signature := stringify nextData, data := Some nextData\<rparr>,
       invoked = map (\<lambda>ob. (ob, Some nextData)) (observers st), warned = []\<rparr>"
    by (simp add: load_def load_body_def notify_def Let_def)
  show "\<forall>ob \<in> set (observers st).
      length (filter (\<lambda>c. fst c = ob) (invoked (load rv fetch stringify force now st))) = 1"
  proof
    fix ob
    assume "ob \<in> set (observers st)"
    with assms(4) have "length (filter (\<lambda>c. fst c = ob)
        (map (\<lambda>ob. (ob, Some nextData)) (observers st))) = 1"
      by (rule invoked_once)
    then show "length (filter (\<lambda>c. fst c = ob)
        (invoked (load rv fetch stringify force now st))) = 1"
      by (simp only: swap outcome.select_convs)
  qed
qed

lemma string_of_nat_5: "string_of_nat 5 = ''5''"
  by (simp add: string_of_nat.simps digit_def)

lemma string_of_nat_6: "string_of_nat 6 = ''6''"
  by (simp add: string_of_nat.simps digit_def)

theorem load_fingerprint_witness:
  "load Part000 (respond 200 (Parsed 5)) string_of_nat False 0 store5 =
     \<lparr>result = Inr (Some 5), after = store5, invoked = [], warned = []\<rparr> \<and>
   load Part002 (respond 200 (Parsed 6)) string_of_nat False 0 store5 =
     \<lparr>result = Inr (Some 6), after = store5\<lparr>signature := ''6'', data := Some 6\<rparr>,
      invoked = [(1, Some 6), (2, Some 6)], warned = []\<rparr> \<and>
   length (filter (\<lambda>c. fst c = 2)
     (invoked (load Part002 (respond 200 (Parsed 6)) string_of_nat False 0 store5))) = 1"
proof -
  let ?r5 = "\<lparr>status = 200, body = Parsed (5::nat)\<rparr>"
  let ?r6 = "\<lparr>status = 200, body = Parsed (6::nat)\<rparr>"
  have d: "distinct (observers store5)" by (simp add: store5_def)
  have same: "string_of_nat 5 = signature store5"
    by (simp add: store5_def string_of_nat_5)
  have differs: "string_of_nat 6 \<noteq> signature store5"
    by (simp add: store5_def string_of_nat_6)
  have f5: "respond 200 (Parsed 5) (requestUrl store5 False 0) = Resolved ?r5"
    and f6: "respond 200 (Parsed 6) (requestUrl store5 False 0) = Resolved ?r6"
    by (simp_all add: respond_def)
  have ok5: "ok ?r5" and ok6: "ok ?r6" by (simp_all add: ok_def)
  have b5: "body ?r5 = Parsed 5" and b6: "body ?r6 = Parsed 6" by simp_all
  from load_fingerprint [where fetch = "respond 200 (Parsed 5)" and st = store5
      and force = False and now = 0 and stringify = string_of_nat and rv = Part000,
      OF f5 ok5 b5 d] same
  have a: "load Part000 (respond 200 (Parsed 5)) string_of_nat False 0 store5 =
     \<lparr>result = Inr (data store5), after = store5, invoked = [], warned = []\<rparr>"
    by blast
  from load_fingerprint [where fetch = "respond 200 (Parsed 6)" and st = store5
      and force = False and now = 0 and stringify = string_of_nat and rv = Part002,
      OF f6 ok6 b6 d] differs
  have b: "load Part002 (respond 200 (Parsed 6)) string_of_nat False 0 store5 =
      \<lparr>result = Inr (Some 6),
       after = store5\<lparr>signature := string_of_nat 6, data := Some 6\<rparr>,
       invoked = map (\<lambda>ob. (ob, Some 6)) (observers store5), warned = []\<rparr>"
    and all: "\<forall>ob \<in> set (observers store5).
        length (filter (\<lambda>c. fst c = ob)
          (invoked (load Part002 (respond 200 (Parsed 6)) string_of_nat False 0 store5))) = 1"
    by blast+
  have "(2::nat) \<in> set (observers store5)" by (simp add: store5_def)
  with all have once: "length (filter (\<lambda>c. fst c = 2)
     (invoked (load Part002 (respond 200 (Parsed 6)) string_of_nat False 0 store5))) = 1"
    by blast
  have a': "load Part000 (respond 200 (Parsed 5)) string_of_nat False 0 store5 =
     \<lparr>result = Inr (Some 5), after = store5, invoked = [], warned = []\<rparr>"
    by (simp add: a) (simp add: store5_def)
  have b': "load Part002 (respond 200 (Parsed 6)) string_of_nat False 0 store5 =
     \<lparr>result = Inr (Some 6), after = store5\<lparr>signature := ''6'', data := Some 6\<rparr>,
      invoked = [(1, Some 6), (2, Some 6)], warned = []\<rparr>"
    by (simp add: b string_of_nat_6) (simp add: store5_def)
  from a' b' once show ?thesis by (intro conjI)
qed

text \<open>
  Claim C2 says that a failed load fails with \<open>FetchFailure\<close> or \<open>ParseFailure\<close> and
  that the failure reaches the caller. In part_000 the \<^verbatim>\<open>catch\<close> block turns both
  failures into a normal return of the stored snapshot: on a response with status 500,
  and on a malformed body, the promise resolves with the payload loaded before.
\<close>

theorem load_part000_swallows_failure:
  "result (load Part000 (respond 500 Malformed) string_of_nat False 0 store5) = Inr (Some 5) \<and>
   result (load Part000 (respond 500 Malformed) string_of_nat False 0 store5) \<noteq> Inl (FetchFailure 500) \<and>
   result (load Part000 (respond 200 Malformed) string_of_nat False 0 store5) = Inr (Some 5) \<and>
   result (load Part000 (respond 200 Malformed) string_of_nat False 0 store5) \<noteq> Inl ParseFailure"
  by (simp add: load_def load_body_def respond_def ok_def store5_def)

text \<open>
  Claim C2, amended. On a response that is not ok, or whose body does not parse,
  neither revision changes the store or calls an observer. Part_002 rejects with
  \<open>FetchFailure status\<close> or \<open>ParseFailure\<close>. Part_000 catches that error, passes it to
  \<^verbatim>\<open>console.warn\<close> and resolves with the stored snapshot.
\<close>

theorem load_failure:
  assumes "fetch (requestUrl st force now) = Resolved response"
    and "\<not> ok response \<or> body response = Malformed"
  shows "load Part002 fetch stringify force now st =
           \<lparr>result = Inl (if \<not> ok response then FetchFailure (status response) else ParseFailure),
            after = st, invoked = [], warned = []\<rparr> \<and>
         load Part000 fetch stringify force now st =
           \<lparr>result = Inr (data st), after = st, invoked = [],
            warned = [if \<not> ok response then FetchFailure (status response) else ParseFailure]\<rparr>"
  using assms by (auto simp: load_def load_body_def)

theorem load_failure_witness:
  "load Part002 (respond 503 (Parsed 6)) string_of_nat True 0 store5 =
     \<lparr>result = Inl (FetchFailure 503), after = store5, invoked = [], warned = []\<rparr> \<and>
   load Part000 (respond 503 (Parsed 6)) string_of_nat True 0 store5 =
     \<lparr>result = Inr (Some 5), after = store5, invoked = [], warned = [FetchFailure 503]\<rparr> \<and>
   load Part002 (respond 200 Malformed) string_of_nat True 0 store5 =
     \<lparr>result = Inl ParseFailure, after = store5, invoked = [], warned = []\<rparr> \<and>
   load Part000 (respond 200 Malformed) string_of_nat True 0 store5 =
     \<lparr>result = Inr (Some 5), after = store5, invoked = [], warned = [ParseFailure]\<rparr>"
proof -
  let ?a = "\<lparr>status = 503, body = Parsed (6::nat)\<rparr>"
  let ?b = "\<lparr>status = 200, body = (Malformed :: nat body)\<rparr>"
  have fa: "respond 503 (Parsed 6) (requestUrl store5 True 0) = Resolved ?a"
    and fb: "respond 200 Malformed (requestUrl store5 True 0) = Resolved ?b"
    by (simp_all add: respond_def)
  have ha: "\<not> ok ?a \<or> body ?a = Malformed" and hb: "\<not> ok ?b \<or> body ?b = Malformed"
    by (simp_all add: ok_def)
  have d5: "data store5 = Some 5" by (simp add: store5_def)
  from load_failure [where fetch = "respond 503 (Parsed 6)" and st = store5 and force = True
      and now = 0 and stringify = string_of_nat, OF fa ha]
    load_failure [where fetch = "respond 200 Malformed" and st = store5 and force = True
      and now = 0 and stringify = string_of_nat, OF fb hb]
  show ?thesis by (simp add: ok_def d5)
qed

text \<open>The decimal notation determines the number.\<close>

lemma digit_value_digit: "n < 10 \<Longrightarrow> digit_value (digit n) = n"
proof -
  assume "n < 10"
  then have "n \<in> {0, 1, 2, 3, 4, 5, 6, 7, 8, 9}" by auto
  then show ?thesis by (auto simp: digit_value_def digit_def)
qed

lemma nat_of_string_of_nat: "nat_of_string (string_of_nat n) = n"
proof (induction n rule: string_of_nat.induct)
  case (1 n)
  show ?case
  proof (cases "n < 10")
    case True
    then show ?thesis
      by (simp add: string_of_nat.simps [of n] nat_of_string_def digit_value_digit)
  next
    case False
    with "1" have "nat_of_string (string_of_nat (n div 10)) = n div 10" by simp
    with False show ?thesis
      by (simp add: string_of_nat.simps [of n] nat_of_string_def digit_value_digit)
  qed
qed

lemma string_of_nat_inject: "(string_of_nat a = string_of_nat b) = (a = b)"
  using nat_of_string_of_nat by metis

lemma requestUrl_forced:
  "requestUrl st True now =
     contentUrl st @ (if CHR ''?'' \<in> set (contentUrl st) then ''&'' else ''?'') @ ''v='' @
     string_of_nat now"
  by (simp add: requestUrl_def cacheBust_def string_of_jsnum_def)

lemma requestUrl_unforced:
  "0 < intervalMs st \<Longrightarrow>
   requestUrl st False now =
     contentUrl st @ (if CHR ''?'' \<in> set (contentUrl st) then ''&'' else ''?'') @ ''v='' @
     string_of_nat (now div intervalMs st)"
  by (simp add: requestUrl_def cacheBust_def string_of_jsnum_def)

text \<open>\<open>load\<close> asks the network for \<open>requestUrl\<close> and for nothing else: a network that
  answers only there serves it as well.\<close>

lemma load_requests:
  "load rv fetch stringify force now st =
   load rv (\<lambda>url. if url = requestUrl st force now then fetch url else Rejected)
     stringify force now st"
  by (simp add: load_def load_body_def)

lemma load_rejected:
  "fetch (requestUrl st force now) = Rejected \<Longrightarrow>
   result (load Part002 fetch stringify force now st) = Inl NetworkFailure \<and>
   warned (load Part000 fetch stringify force now st) = [NetworkFailure]"
  by (simp add: load_def load_body_def)

text \<open>
  Claim C8. The request of \<open>load\<close> goes to the content URL followed by a separator,
  \<^verbatim>\<open>v=\<close> and the cache-busting number in decimal notation, and \<open>load\<close> depends on the
  network's answer to that URL alone. With \<open>force\<close> the number is the timestamp, so
  two forced requests carry the same value only at the same timestamp. Without
  \<open>force\<close>, and with a positive interval, the number is \<open>now div intervalMs\<close>, so two
  unforced requests carry the same value exactly when their timestamps lie in the same
  poll window.
\<close>

theorem cacheBust_window:
  "cacheBust True now (intervalMs st) = Num now \<and>
   (0 < intervalMs st \<longrightarrow> cacheBust False now (intervalMs st) = Num (now div intervalMs st)) \<and>
   requestUrl st True now =
     contentUrl st @ (if CHR ''?'' \<in> set (contentUrl st) then ''&'' else ''?'') @ ''v='' @
     string_of_nat now \<and>
   (0 < intervalMs st \<longrightarrow>
      requestUrl st False now =
        contentUrl st @ (if CHR ''?'' \<in> set (contentUrl st) then ''&'' else ''?'') @ ''v='' @
        string_of_nat (now div intervalMs st)) \<and>
   (requestUrl st True now1 = requestUrl st True now2) = (now1 = now2) \<and>
   (0 < intervalMs st \<longrightarrow>
      (requestUrl st False now1 = requestUrl st False now2)
        = (now1 div intervalMs st = now2 div intervalMs st)) \<and>
   load rv fetch stringify force now st =
     load rv (\<lambda>url. if url = requestUrl st force now then fetch url else Rejected)
       stringify force now st \<and>
   (fetch (requestUrl st force now) = Rejected \<longrightarrow>
      result (load Part002 fetch stringify force now st) = Inl NetworkFailure \<and>
      warned (load Part000 fetch stringify force now st) = [NetworkFailure])"
proof (intro conjI impI)
  show "cacheBust True now (intervalMs st) = Num now"
    by (simp add: cacheBust_def)
  show "cacheBust False now (intervalMs st) = Num (now div intervalMs st)" if "0 < intervalMs st"
    using that by (simp add: cacheBust_def)
  show "requestUrl st True now =
      contentUrl st @ (if CHR ''?'' \<in> set (contentUrl st) then ''&'' else ''?'') @ ''v='' @
      string_of_nat now"
    by (rule requestUrl_forced)
  show "requestUrl st False now =
      contentUrl st @ (if CHR ''?'' \<in> set (contentUrl st) then ''&'' else ''?'') @ ''v='' @
      string_of_nat (now div intervalMs st)" if "0 < intervalMs st"
    using that by (rule requestUrl_unforced)
  show "(requestUrl st True now1 = requestUrl st True now2) = (now1 = now2)"
    by (simp add: requestUrl_forced string_of_nat_inject)
  show "(requestUrl st False now1 = requestUrl st False now2)
      = (now1 div intervalMs st = now2 div intervalMs st)" if "0 < intervalMs st"
    using that by (simp add: requestUrl_unforced string_of_nat_inject)
  show "load rv fetch stringify force now st =
      load rv (\<lambda>url. if url = requestUrl st force now then fetch url else Rejected)
        stringify force now st"
    by (rule load_requests)
  show "result (load Part002 fetch stringify force now st) = Inl NetworkFailure"
    and "warned (load Part000 fetch stringify force now st) = [NetworkFailure]"
    if "fetch (requestUrl st force now) = Rejected"
    using that by (simp_all add: load_def load_body_def)
qed

theorem cacheBust_window_witness:
  "0 < intervalMs store5 \<and> (14000::nat) div intervalMs store5 = 20999 div intervalMs store5 \<and>
   cacheBust True 14000 (intervalMs store5) = Num 14000 \<and>
   cacheBust False 14000 (intervalMs store5) = Num 2 \<and>
   requestUrl store5 True 14000 = ''content.json?v=14000'' \<and>
   requestUrl store5 False 14000 = ''content.json?v=2'' \<and>
   requestUrl store5 False 20999 = ''content.json?v=2'' \<and>
   requestUrl store5 False 21000 \<noteq> requestUrl store5 False 20999 \<and>
   requestUrl store5 True 14001 \<noteq> requestUrl store5 True 14000 \<and>
   result (load Part002
            (\<lambda>url. if url = ''content.json?v=2'' then respond 200 (Parsed 6) url else Rejected)
            string_of_nat False 20999 store5)
     = result (load Part002 (respond 200 (Parsed 6)) string_of_nat False 20999 store5) \<and>
   result (load Part002 (\<lambda>url. Rejected) string_of_nat False 20999 store5) = Inl NetworkFailure"
proof -
  have i: "intervalMs store5 = 7000" and u: "contentUrl store5 = ''content.json''"
    by (simp_all add: store5_def)
  have w: "0 < intervalMs store5" "(14000::nat) div intervalMs store5 = 20999 div intervalMs store5"
    "(14000::nat) div intervalMs store5 = 2" "(21000::nat) div intervalMs store5 = 3"
    by (simp_all add: i)
  have s: "string_of_nat 2 = ''2''" "string_of_nat 14000 = ''14000''"
    by (simp_all add: string_of_nat.simps digit_def)
  note t = cacheBust_window [where st = store5 and ?now1.0 = 14000 and ?now2.0 = 20999
      and now = 14000 and fetch = "\<lambda>url. Rejected" and stringify = string_of_nat
      and force = False and rv = Part002]
  from t w have 1: "cacheBust True 14000 (intervalMs store5) = Num 14000"
    "cacheBust False 14000 (intervalMs store5) = Num 2" by simp_all
  from t have 2: "requestUrl store5 True 14000 = ''content.json?v=14000''"
    by (simp add: u s)
  from t w have 3: "requestUrl store5 False 14000 = ''content.json?v=2''"
    by (simp add: u s)
  from t w have "requestUrl store5 False 14000 = requestUrl store5 False 20999" by blast
  with 3 have 4: "requestUrl store5 False 20999 = ''content.json?v=2''" by simp
  from cacheBust_window [where st = store5 and ?now1.0 = 21000 and ?now2.0 = 20999
      and now = 0 and fetch = "\<lambda>url. Rejected" and stringify = string_of_nat
      and force = False and rv = Part002] w
  have 5: "requestUrl store5 False 21000 \<noteq> requestUrl store5 False 20999" by simp
  from cacheBust_window [where st = store5 and ?now1.0 = 14001 and ?now2.0 = 14000
      and now = 0 and fetch = "\<lambda>url. Rejected" and stringify = string_of_nat
      and force = False and rv = Part002]
  have 6: "requestUrl store5 True 14001 \<noteq> requestUrl store5 True 14000" by simp
  from cacheBust_window [where st = store5 and fetch = "respond 200 (Parsed 6)"
      and stringify = string_of_nat and force = False and now = 20999 and rv = Part002
      and ?now1.0 = 0 and ?now2.0 = 0]
  have 7: "result (load Part002
            (\<lambda>url. if url = ''content.json?v=2'' then respond 200 (Parsed 6) url else Rejected)
            string_of_nat False 20999 store5)
     = result (load Part002 (respond 200 (Parsed 6)) string_of_nat False 20999 store5)"
    by (simp add: 4)
  from cacheBust_window [where st = store5 and fetch = "\<lambda>url. Rejected"
      and stringify = string_of_nat and force = False and now = 20999 and rv = Part002
      and ?now1.0 = 0 and ?now2.0 = 0]
  have 8: "result (load Part002 (\<lambda>url. Rejected) string_of_nat False 20999 store5)
      = Inl NetworkFailure"
    by simp
  from w(1,2) 1 2 3 4 5 6 7 8 show ?thesis by (intro conjI)
qed

text \<open>A new observer is put last: the list is in subscription order.\<close>

lemma subscribe_order:
  "ob \<notin> set (observers st) \<Longrightarrow> observers (fst (subscribe truthy ob st)) = observers st @ [ob]"
  by (simp add: subscribe_def set_add_def Let_def)

text \<open>The store \<open>store0\<close> is what a successful load of the payload 0 leaves.\<close>

lemma store0_loaded:
  "after (load rv (respond 200 (Parsed 0)) string_of_nat False 0 store5) = store0"
  by (cases rv)
     (simp_all add: load_def load_body_def respond_def ok_def store5_def store0_def
        string_of_nat.simps digit_def Let_def)

text \<open>
  Claim C9. \<open>subscribe\<close> changes nothing but the observer set, to which it adds the
  observer. It calls the observer once, with the stored snapshot, exactly when the
  store holds one that passes the source's test \<^verbatim>\<open>if (this.data)\<close>, as every snapshot
  object does; it makes no call when nothing is stored or the stored payload is not
  truthy. The returned \<open>unsubscribe\<close> changes nothing but the observer set, from which
  it removes the observer; applied a second time it changes nothing.
\<close>

theorem subscribe_unsubscribe:
  "fst (subscribe truthy ob st) = st\<lparr>observers := observers (fst (subscribe truthy ob st))\<rparr> \<and>
   set (observers (fst (subscribe truthy ob st))) = insert ob (set (observers st)) \<and>
   snd (subscribe truthy ob st) =
     (case data st of None \<Rightarrow> [] | Some d \<Rightarrow> if truthy d then [(ob, Some d)] else []) \<and>
   unsubscribe ob st = st\<lparr>observers := observers (unsubscribe ob st)\<rparr> \<and>
   set (observers (unsubscribe ob st)) = set (observers st) - {ob} \<and>
   unsubscribe ob (unsubscribe ob st) = unsubscribe ob st"
  by (auto simp: subscribe_def truthy_data_def unsubscribe_def set_add_def set_delete_def Let_def
           split: option.splits)

theorem subscribe_unsubscribe_witness:
  "observers (fst (subscribe truthy_number 3 store5)) = [1, 2, 3] \<and>
   snd (subscribe truthy_number 3 store5) = [(3, Some 5)] \<and>
   snd (subscribe truthy_number 3 store0) = [] \<and>
   snd (subscribe truthy_number 3 (ObservableContentStore ''content.json'' 7000)) = [] \<and>
   observers (unsubscribe 3 (fst (subscribe truthy_number 3 store5))) = [1, 2] \<and>
   unsubscribe 3 (unsubscribe 3 (fst (subscribe truthy_number 3 store5)))
     = unsubscribe 3 (fst (subscribe truthy_number 3 store5))"
proof -
  have d: "data store5 = Some 5" "data store0 = Some 0"
    "data (ObservableContentStore ''content.json'' 7000 :: nat store) = None"
    by (simp_all add: store5_def store0_def ObservableContentStore_def)
  from subscribe_unsubscribe [of truthy_number 3 store5] d
  have 1: "snd (subscribe truthy_number 3 store5) = [(3, Some 5)]"
    by (simp add: truthy_number_def)
  from subscribe_unsubscribe [of truthy_number 3 store0] d
  have 2: "snd (subscribe truthy_number 3 store0) = []"
    by (simp add: truthy_number_def)
  from subscribe_unsubscribe [of truthy_number 3 "ObservableContentStore ''content.json'' 7000 :: nat store"] d
  have 3: "snd (subscribe truthy_number 3 (ObservableContentStore ''content.json'' 7000 :: nat store)) = []"
    by simp
  from subscribe_unsubscribe [of truthy_number 3 "fst (subscribe truthy_number 3 store5)"]
  have 4: "unsubscribe 3 (unsubscribe 3 (fst (subscribe truthy_number 3 store5)))
      = unsubscribe 3 (fst (subscribe truthy_number 3 store5))"
    by blast
  have 5: "observers (fst (subscribe truthy_number 3 store5)) = [1, 2, 3]"
    "observers (unsubscribe 3 (fst (subscribe truthy_number 3 store5))) = [1, 2]"
    by (simp_all add: subscribe_def unsubscribe_def set_add_def set_delete_def Let_def store5_def)
  from 1 2 3 4 5 show ?thesis by (intro conjI)
qed

subsection \<open>BGM_Core: routes\<close>

lemmas ctl_defs = step_def onContentUpdate_def handleRouteChange_def navigate_def renderRoute_def
  commit_def frame_def finished_def routeRenderer_def normalizeRoute_def parseHashRoute_def
  trim_def is_space_def index_def literalRoutes_def BGM_Core_def validRoute_def
  article_a1_def article_a1_revised_def content1_def content1_revised_def content2_def
  core_a1_def boot_def Let_def

text \<open>The state \<open>core_a1\<close> is the one a new controller of part_002 reaches; part_000
  reaches it too, having committed and painted the home view first.\<close>

lemma boot_part002: "run Part002 boot (BGM_Core True ''#a1'') = core_a1"
  by (simp add: ctl_defs)

lemma boot_part000:
  "run Part000 boot (BGM_Core True ''#a1'') =
     core_a1\<lparr>routeChanged := [''home'', ''a1''],
             painted := [HomeView ''home'' (Some content1), ArticleView article_a1]\<rparr>"
  by (simp add: ctl_defs)

text \<open>
  Claim C6. \<open>normalizeRoute\<close> is a total function (no path of the source throws); it is
  idempotent; it returns its argument exactly when the argument is a literal route or
  a key of \<open>articlesById\<close>; every other token becomes \<^verbatim>\<open>"home"\<close>. Both revisions, each
  with its literal routes.
\<close>

theorem normalizeRoute_idempotent:
  "normalizeRoute rv w (normalizeRoute rv w x) = normalizeRoute rv w x \<and>
   (normalizeRoute rv w x = x) = (x \<in> set (literalRoutes rv) \<or> x \<in> dom (articlesById w)) \<and>
   (x \<notin> set (literalRoutes rv) \<and> x \<notin> dom (articlesById w) \<longrightarrow> normalizeRoute rv w x = ''home'')"
  by (cases rv) (auto simp: normalizeRoute_def literalRoutes_def)

theorem normalizeRoute_idempotent_witness:
  "''ghost-article'' \<notin> set (literalRoutes Part002) \<and>
   ''ghost-article'' \<notin> dom (articlesById core_a1) \<and>
   normalizeRoute Part002 core_a1 ''ghost-article'' = ''home'' \<and>
   normalizeRoute Part000 core_a1 ''a1'' = ''a1'' \<and>
   normalizeRoute Part000 core_a1 ''watch'' = ''watch'' \<and>
   normalizeRoute Part002 core_a1 ''watch'' = ''home''"
proof -
  have h: "''ghost-article'' \<notin> set (literalRoutes Part002) \<and>
      ''ghost-article'' \<notin> dom (articlesById core_a1)"
    by (simp add: ctl_defs dom_def)
  have w: "''watch'' \<notin> set (literalRoutes Part002) \<and> ''watch'' \<notin> dom (articlesById core_a1)"
    by (simp add: ctl_defs dom_def)
  have a: "''a1'' \<in> dom (articlesById core_a1)" and l: "''watch'' \<in> set (literalRoutes Part000)"
    by (simp_all add: ctl_defs dom_def)
  from normalizeRoute_idempotent [of Part002 core_a1 "''ghost-article''"] h
  have 1: "normalizeRoute Part002 core_a1 ''ghost-article'' = ''home''" by blast
  from normalizeRoute_idempotent [of Part000 core_a1 "''a1''"] a
  have 2: "normalizeRoute Part000 core_a1 ''a1'' = ''a1''" by blast
  from normalizeRoute_idempotent [of Part000 core_a1 "''watch''"] l
  have 3: "normalizeRoute Part000 core_a1 ''watch'' = ''watch''" by blast
  from normalizeRoute_idempotent [of Part002 core_a1 "''watch''"] w
  have 4: "normalizeRoute Part002 core_a1 ''watch'' = ''home''" by blast
  from h 1 2 3 4 show ?thesis by (intro conjI) simp_all
qed

lemma normalizeRoute_valid: "validRoute rv w (normalizeRoute rv w x)"
  by (cases rv) (auto simp: normalizeRoute_def literalRoutes_def validRoute_def)

lemma index_dom: "dom (index c) = article_id ` set (articles c)"
  by (simp add: index_def dom_map_of_conv_image_fst image_image)

text \<open>The two scenarios of the specification for the route resolver: an empty fragment
  resolves to the default route of the snapshot, an unknown fragment to \<^verbatim>\<open>"home"\<close>.\<close>

lemma empty_fragment_default_route:
  "parseHashRoute (core_a1\<lparr>hash := []\<rparr>) = ''latest'' \<and>
   normalizeRoute rv (core_a1\<lparr>hash := []\<rparr>) (parseHashRoute (core_a1\<lparr>hash := []\<rparr>)) = ''latest''"
  by (cases rv) (simp_all add: ctl_defs)

lemma ghost_fragment_home:
  "normalizeRoute rv (core_a1\<lparr>hash := ''#ghost-article''\<rparr>)
     (parseHashRoute (core_a1\<lparr>hash := ''#ghost-article''\<rparr>)) = ''home''"
  by (cases rv) (simp_all add: ctl_defs)

subsection \<open>BGM_Core: commits are of valid routes\<close>

lemma commit_fields:
  "routeChanged (commit r w) = routeChanged w @ [r]" "currentRoute (commit r w) = r"
  "articlesById (commit r w) = articlesById w"
  by (simp_all add: commit_def)

lemma renderRoute_valid:
  "validRoute rv w r \<Longrightarrow> commits_valid rv w (renderRoute rv r w)"
  by (cases rv) (auto simp: renderRoute_def commits_valid_def commit_def validRoute_def)

lemma navigate_valid: "commits_valid rv w (navigate rv r w)"
  using renderRoute_valid [OF normalizeRoute_valid, of rv w r]
  by (auto simp: navigate_def Let_def) (simp_all add: commits_valid_def)

lemma handleRouteChange_valid: "commits_valid rv w (handleRouteChange rv w)"
  using renderRoute_valid [OF normalizeRoute_valid, of rv w "parseHashRoute w"] navigate_valid [of rv w]
  by (auto simp: handleRouteChange_def Let_def)

text \<open>
  The invariant of claim C4 holds of part_002: every event either commits nothing and leaves
  \<open>currentRoute\<close>, or commits a route that is valid against the index of that moment.
\<close>

lemma part002_commits_valid: "commits_valid Part002 w (step Part002 ev w)"
proof (cases ev)
  case (ContentUpdate c)
  let ?w = "w\<lparr>content := Some c, articlesById := index c\<rparr>"
  from handleRouteChange_valid [of Part002 ?w] ContentUpdate show ?thesis
    by (simp add: step_def onContentUpdate_def Let_def commits_valid_def)
next
  case HashChange
  with handleRouteChange_valid show ?thesis by (simp add: step_def)
next
  case (SetHash h)
  then show ?thesis by (simp add: step_def commits_valid_def)
next
  case (Navigate r)
  with navigate_valid show ?thesis by (simp add: step_def)
next
  case (Frame b)
  then show ?thesis by (auto simp: step_def frame_def commits_valid_def Let_def split: list.splits)
next
  case (Finished b)
  then show ?thesis by (simp add: step_def finished_def commits_valid_def)
qed

text \<open>
  Claim C4 fails on part_000. After its start the controller shows the article \<open>a1\<close>
  and is idle; a snapshot without that article arrives. \<open>onContentUpdate\<close> passes \<open>currentRoute\<close> to
  \<open>renderRoute\<close> without normalizing it: the route \<open>a1\<close> is committed again (a second
  call of \<open>onRouteChange\<close>) although it is neither a literal route nor a key of the
  index built from the snapshot that is active at that commit.
\<close>

theorem part000_unvalidated_commit:
  "\<not> isNavigating (run Part000 boot (BGM_Core True ''#a1'')) \<and>
   currentRoute (run Part000 (boot @ [ContentUpdate content2]) (BGM_Core True ''#a1'')) = ''a1'' \<and>
   routeChanged (run Part000 (boot @ [ContentUpdate content2]) (BGM_Core True ''#a1''))
     = [''home'', ''a1'', ''a1''] \<and>
   content (run Part000 (boot @ [ContentUpdate content2]) (BGM_Core True ''#a1'')) = Some content2 \<and>
   \<not> validRoute Part000 (run Part000 (boot @ [ContentUpdate content2]) (BGM_Core True ''#a1'')) ''a1''"
  by (simp add: ctl_defs)

subsection \<open>BGM_Core: a renderer that throws\<close>

lemma renderRoute_dropped: "isNavigating w \<Longrightarrow> renderRoute Part002 route w = w"
  by (simp add: renderRoute_def)

lemma navigate_in_flight:
  "isNavigating w \<Longrightarrow> navigate Part002 route w = w \<or> (\<exists>h. navigate Part002 route w = w\<lparr>hash := h\<rparr>)"
  by (auto simp: navigate_def Let_def renderRoute_dropped)

lemma handleRouteChange_in_flight:
  "isNavigating w \<Longrightarrow>
   handleRouteChange Part002 w = w \<or> (\<exists>h. handleRouteChange Part002 w = w\<lparr>hash := h\<rparr>)"
  using navigate_in_flight by (auto simp: handleRouteChange_def Let_def renderRoute_dropped)

lemma step_stuck:
  assumes "stuck w"
  shows "stuck (step Part002 ev w) \<and> routeChanged (step Part002 ev w) = routeChanged w \<and>
         painted (step Part002 ev w) = painted w \<and> currentRoute (step Part002 ev w) = currentRoute w"
proof (cases ev)
  case (ContentUpdate c)
  let ?w = "w\<lparr>content := Some c, articlesById := index c\<rparr>"
  from assms have "isNavigating ?w" by (simp add: stuck_def)
  from handleRouteChange_in_flight [OF this] assms ContentUpdate show ?thesis
    by (auto simp: step_def onContentUpdate_def Let_def stuck_def)
next
  case HashChange
  from assms have "isNavigating w" by (simp add: stuck_def)
  from handleRouteChange_in_flight [OF this] assms HashChange show ?thesis
    by (auto simp: step_def stuck_def)
next
  case (SetHash h)
  with assms show ?thesis by (simp add: step_def stuck_def)
next
  case (Navigate route)
  from assms have "isNavigating w" by (simp add: stuck_def)
  from navigate_in_flight [OF this, of route] assms Navigate show ?thesis
    by (auto simp: step_def stuck_def)
next
  case (Frame returns)
  with assms show ?thesis by (simp add: step_def frame_def stuck_def)
next
  case (Finished fulfilled)
  with assms show ?thesis by (simp add: step_def finished_def stuck_def)
qed

lemma run_stuck:
  "stuck w \<Longrightarrow> stuck (run Part002 evs w) \<and> routeChanged (run Part002 evs w) = routeChanged w \<and>
     painted (run Part002 evs w) = painted w \<and> currentRoute (run Part002 evs w) = currentRoute w"
proof (induction evs arbitrary: w)
  case Nil
  then show ?case by simp
next
  case (Cons ev evs)
  from step_stuck [OF Cons.prems, of ev] Cons.IH [of "step Part002 ev w"]
  show ?case by simp
qed


lemma stuck_example:
  "stuck (run Part002 [ContentUpdate content1, Frame False] (BGM_Core False ''#a1''))"
  by (simp add: ctl_defs stuck_def)

text \<open>
  Claim C7 fails on the path without view transitions. The controller of part_002
  loads \<open>content1\<close> at the fragment \<^verbatim>\<open>#a1\<close> and commits the route; in the animation
  frame \<open>routeRenderer\<close> throws. The promise of \<open>commitDOM\<close> is never settled, its
  \<^verbatim>\<open>finally\<close> handler never runs, and whatever happens afterwards (\<open>evs\<close>) the flag
  stays raised, nothing is painted and no route is committed any more.
\<close>

theorem throwing_renderer_stays_navigating:
  "isNavigating (run Part002 ([ContentUpdate content1, Frame False] @ evs) (BGM_Core False ''#a1'')) \<and>
   painted (run Part002 ([ContentUpdate content1, Frame False] @ evs) (BGM_Core False ''#a1'')) = [] \<and>
   routeChanged (run Part002 ([ContentUpdate content1, Frame False] @ evs) (BGM_Core False ''#a1'')) = [''a1'']"
proof -
  let ?w = "run Part002 [ContentUpdate content1, Frame False] (BGM_Core False ''#a1'')"
  have split: "run Part002 ([ContentUpdate content1, Frame False] @ evs) (BGM_Core False ''#a1'')
      = run Part002 evs ?w" by simp
  have "painted ?w = []" and "routeChanged ?w = [''a1'']" by (simp_all add: ctl_defs)
  with run_stuck [OF stuck_example, of evs] show ?thesis
    unfolding split by (simp add: stuck_def)
qed

text \<open>
  Part_000 has the same \<open>commitDOM\<close>. There a later \<open>renderRoute\<close> is not held back
  and raises and lowers the flag again, but until then the flag stays raised: the
  article is requested once more, its renderer throws, and a snapshot that arrives
  afterwards is stored but not rendered.
\<close>

lemma part000_throwing_renderer:
  "stuck (run Part000 [ContentUpdate content1, HashChange, Frame True, Frame False,
                       Navigate ''a1'', Frame False] (BGM_Core False ''#a1'')) \<and>
   stuck (run Part000 [ContentUpdate content1, HashChange, Frame True, Frame False,
                       Navigate ''a1'', Frame False, ContentUpdate content1_revised]
            (BGM_Core False ''#a1'')) \<and>
   painted (run Part000 [ContentUpdate content1, HashChange, Frame True, Frame False,
                         Navigate ''a1'', Frame False, ContentUpdate content1_revised]
              (BGM_Core False ''#a1'')) = [HomeView ''home'' (Some content1)]"
  by (simp add: ctl_defs stuck_def)

text \<open>What the claim says does hold where the promise settles: a transition that
  finishes, fulfilled or rejected, lowers the flag, and so does a frame whose renderer
  returns on the path without view transitions.\<close>

lemma finished_clears: "0 < finishing w \<Longrightarrow> \<not> isNavigating (step rv (Finished fulfilled) w)"
  by (simp add: step_def finished_def)

lemma frame_clears:
  "\<not> viewTransitions w \<Longrightarrow> frames w \<noteq> [] \<Longrightarrow> \<not> isNavigating (step rv (Frame True) w)"
  by (auto simp: step_def frame_def Let_def split: list.splits)


subsection \<open>BGM_Core: a render requested while another is in flight\<close>

text \<open>
  Claim C3 says that the second of two \<open>navigate\<close> calls is queued and committed once
  after the transition in flight. Neither revision has a queue. In part_000 the second
  call commits at once: \<open>onRouteChange\<close> is called for it and a second frame is queued,
  so the article is rendered twice. In part_002 the second call changes nothing.
\<close>

theorem navigate_twice_counterexample:
  "routeChanged (run Part000 (boot @ [Navigate ''a1'', Navigate ''a1'']) (BGM_Core True ''#a1''))
     = [''home'', ''a1'', ''a1'', ''a1''] \<and>
   frames (run Part000 (boot @ [Navigate ''a1'', Navigate ''a1'']) (BGM_Core True ''#a1''))
     = [''a1'', ''a1''] \<and>
   painted (run Part000 (boot @ [Navigate ''a1'', Navigate ''a1'', Frame True, Frame True,
                                 Finished True, Finished True]) (BGM_Core True ''#a1''))
     = [HomeView ''home'' (Some content1), ArticleView article_a1,
        ArticleView article_a1, ArticleView article_a1] \<and>
   run Part002 (boot @ [Navigate ''a1'', Navigate ''a1'']) (BGM_Core True ''#a1'')
     = run Part002 (boot @ [Navigate ''a1'']) (BGM_Core True ''#a1'') \<and>
   frames (run Part002 (boot @ [Navigate ''a1'', Navigate ''a1'']) (BGM_Core True ''#a1''))
     = [''a1'']"
  by (simp add: ctl_defs)

text \<open>
  Claim C3, amended. The controller is idle on a snapshot with the article \<open>ident\<close>
  (not a literal route), and the fragment already names it, so that \<open>navigate\<close>
  renders. In part_002 the second \<open>navigate\<close>, made while the first render is in
  flight, is dropped: the route is committed once and painted once, and after the frame
  and the end of the transition the controller is idle on that route. In part_000 the
  second \<open>navigate\<close> commits again: two commits and two paints of the route; after both
  frames and both transitions the controller is idle on that route.
\<close>

theorem navigate_twice:
  assumes "content w \<noteq> None" and "articlesById w ident = Some a"
    and "ident \<notin> set (literalRoutes Part000)" and "hash w = CHR ''#'' # ident"
    and "\<not> isNavigating w" and "frames w = []" and "finishing w = 0"
  shows "step Part002 (Navigate ident) (step Part002 (Navigate ident) w) = step Part002 (Navigate ident) w \<and>
     currentRoute (run Part002 [Navigate ident, Navigate ident, Frame True, Finished True] w) = ident \<and>
     routeChanged (run Part002 [Navigate ident, Navigate ident, Frame True, Finished True] w)
       = routeChanged w @ [ident] \<and>
     painted (run Part002 [Navigate ident, Navigate ident, Frame True, Finished True] w)
       = painted w @ [ArticleView a] \<and>
     \<not> isNavigating (run Part002 [Navigate ident, Navigate ident, Frame True, Finished True] w) \<and>
     currentRoute (run Part000 [Navigate ident, Navigate ident, Frame True, Frame True,
                                Finished True, Finished True] w) = ident \<and>
     routeChanged (run Part000 [Navigate ident, Navigate ident, Frame True, Frame True,
                                Finished True, Finished True] w)
       = routeChanged w @ [ident, ident] \<and>
     painted (run Part000 [Navigate ident, Navigate ident, Frame True, Frame True,
                           Finished True, Finished True] w)
       = painted w @ [ArticleView a, ArticleView a] \<and>
     \<not> isNavigating (run Part000 [Navigate ident, Navigate ident, Frame True, Frame True,
                                  Finished True, Finished True] w)"
proof -
  let ?w1 = "commit ident w"
  let ?w2 = "commit ident ?w1"
  have norm: "normalizeRoute rv w' ident = ident" if "articlesById w' ident = Some a" for rv w'
    using that by (simp add: normalizeRoute_def)
  have n2: "navigate Part002 ident w = ?w1"
    using assms by (auto simp: navigate_def norm renderRoute_def)
  have n0: "navigate Part000 ident w = ?w1"
    using assms by (auto simp: navigate_def norm renderRoute_def)
  have w1: "content ?w1 \<noteq> None" "articlesById ?w1 ident = Some a" "hash ?w1 = CHR ''#'' # ident"
    "isNavigating ?w1" "frames ?w1 = [ident]"
    using assms by (simp_all add: commit_def)
  have d2: "navigate Part002 ident ?w1 = ?w1"
    using w1 by (auto simp: navigate_def norm renderRoute_def)
  have d0: "navigate Part000 ident ?w1 = ?w2"
    using w1 by (auto simp: navigate_def norm renderRoute_def)
  have lit: "ident \<notin> set (literalRoutes Part002)"
    using assms(3) by (simp add: literalRoutes_def)
  have r2: "routeRenderer Part002 w' ident = ArticleView a"
    and r0: "routeRenderer Part000 w' ident = ArticleView a"
    if "articlesById w' ident = Some a" for w'
    using that assms(3) lit by (simp_all add: routeRenderer_def)
  let ?e2 = "finished True (frame Part002 True ?w1)"
  let ?e0 = "finished True (finished True (frame Part000 True (frame Part000 True ?w2)))"
  have run2: "run Part002 [Navigate ident, Navigate ident, Frame True, Finished True] w = ?e2"
    by (simp add: step_def n2 d2)
  have run0: "run Part000 [Navigate ident, Navigate ident, Frame True, Frame True,
                Finished True, Finished True] w = ?e0"
    by (simp add: step_def n0 d0)
  have f1: "frame Part002 True ?w1 =
      (if viewTransitions w then ?w1\<lparr>frames := [], painted := painted w @ [ArticleView a]\<rparr>
       else ?w1\<lparr>frames := [], painted := painted w @ [ArticleView a], isNavigating := False\<rparr>)"
    using w1 assms(2) by (simp add: frame_def r2) (simp add: commit_def r2)
  have e2: "currentRoute ?e2 = ident" "routeChanged ?e2 = routeChanged w @ [ident]"
    "painted ?e2 = painted w @ [ArticleView a]" "\<not> isNavigating ?e2"
    using assms(7) by (simp_all add: f1 finished_def) (simp_all add: commit_def)
  have w2: "articlesById ?w2 ident = Some a" "frames ?w2 = [ident, ident]"
    using assms by (simp_all add: commit_def)
  have g1: "frame Part000 True ?w2 =
      (if viewTransitions w then ?w2\<lparr>frames := [ident], painted := painted w @ [ArticleView a]\<rparr>
       else ?w2\<lparr>frames := [ident], painted := painted w @ [ArticleView a], isNavigating := False\<rparr>)"
    using w2 assms(2) by (simp add: frame_def r0) (simp add: commit_def r0)
  have g2: "frame Part000 True (frame Part000 True ?w2) =
      (if viewTransitions w
       then ?w2\<lparr>frames := [], painted := painted w @ [ArticleView a, ArticleView a]\<rparr>
       else ?w2\<lparr>frames := [], painted := painted w @ [ArticleView a, ArticleView a],
                 isNavigating := False\<rparr>)"
    using w2 assms(2) by (simp add: g1 frame_def r0) (simp add: commit_def r0)
  have e0: "currentRoute ?e0 = ident" "routeChanged ?e0 = routeChanged w @ [ident, ident]"
    "painted ?e0 = painted w @ [ArticleView a, ArticleView a]" "\<not> isNavigating ?e0"
    using assms(7) by (simp_all add: g2 finished_def) (simp_all add: commit_def)
  have dropped: "step Part002 (Navigate ident) (step Part002 (Navigate ident) w)
      = step Part002 (Navigate ident) w"
    by (simp add: step_def n2 d2)
  from dropped e2 e0 show ?thesis
    unfolding run2 run0 by (intro conjI)
qed

theorem navigate_twice_witness:
  "content core_a1 \<noteq> None \<and> articlesById core_a1 ''a1'' = Some article_a1 \<and>
   ''a1'' \<notin> set (literalRoutes Part000) \<and> hash core_a1 = ''#a1'' \<and>
   \<not> isNavigating core_a1 \<and> frames core_a1 = [] \<and> finishing core_a1 = 0 \<and>
   routeChanged (run Part002 [Navigate ''a1'', Navigate ''a1'', Frame True, Finished True] core_a1)
     = [''a1'', ''a1''] \<and>
   routeChanged (run Part000 [Navigate ''a1'', Navigate ''a1'', Frame True, Frame True,
                              Finished True, Finished True] core_a1)
     = [''a1'', ''a1'', ''a1'']"
proof -
  have h: "content core_a1 \<noteq> None" "articlesById core_a1 ''a1'' = Some article_a1"
    "''a1'' \<notin> set (literalRoutes Part000)" "hash core_a1 = CHR ''#'' # ''a1''"
    "\<not> isNavigating core_a1" "frames core_a1 = []" "finishing core_a1 = 0"
    by (simp_all add: ctl_defs)
  have r: "routeChanged core_a1 = [''a1'']" by (simp add: core_a1_def)
  from navigate_twice [OF h]
  have a: "routeChanged (run Part002 [Navigate ''a1'', Navigate ''a1'', Frame True, Finished True] core_a1)
      = routeChanged core_a1 @ [''a1'']"
    and b: "routeChanged (run Part000 [Navigate ''a1'', Navigate ''a1'', Frame True, Frame True,
                              Finished True, Finished True] core_a1)
      = routeChanged core_a1 @ [''a1'', ''a1'']"
    by blast+
  from h a b show ?thesis unfolding r by simp
qed


subsection \<open>BGM_Core: a snapshot that arrives during a transition\<close>






end
